theory Spec2Isabelle
  imports Complex_Main
begin

section \<open>The ISOTools news section (src/components/ISOToolsSectionClient.jsx)\<close>

subsection \<open>JavaScript values as JSON.parse builds them\<close>

text \<open>
  A number carries the mathematical value of the double: \<open>-0\<close> and \<open>+0\<close> are both
  \<open>Finite 0\<close>, which is how \<open>===\<close> and the truthiness test see them. JSON.parse never
  yields NaN; a literal too large for a double yields an infinity.
\<close>

datatype number = Finite rat | PosInfinity | NegInfinity

text \<open>
  A parsed document. A string is the list of its code units, each written as a \<open>char\<close>.
  \<open>Obj\<close> holds the members of the object in the order of the document.
\<close>

datatype json =
    Null
  | Bool bool
  | Num number
  | Str string
  | Arr "json list"
  | Obj "(string \<times> json) list"

text \<open>
  A value of the running program: \<open>undefined\<close>, which reading a missing property gives
  and which no document contains, or a parsed value.
\<close>

datatype jsval = Undefined | Defined json

datatype exn = TypeError | HttpError string | NetworkError | SyntaxError | InvalidChild

text \<open>The property names the component reads.\<close>

datatype property = P_daily_news | P_length | P_id | P_image_url | P_title | P_text

fun prop_name :: "property \<Rightarrow> string" where
  "prop_name P_daily_news = ''daily_news''"
| "prop_name P_length = ''length''"
| "prop_name P_id = ''id''"
| "prop_name P_image_url = ''image_url''"
| "prop_name P_title = ''title''"
| "prop_name P_text = ''text''"

text \<open>
  \<open>v.p\<close>: reading a property of \<open>null\<close> throws a TypeError; an object gives its own
  member (JSON.parse keeps the last value of a repeated key) or \<open>undefined\<close>; arrays
  and strings have a \<open>length\<close> and none of the other names; numbers and booleans have
  none of them.
\<close>

fun get_prop :: "json \<Rightarrow> property \<Rightarrow> exn + jsval" where
  "get_prop Null p = Inl TypeError"
| "get_prop (Obj ms) p =
     Inr (case map_of (rev ms) (prop_name p) of None \<Rightarrow> Undefined | Some v \<Rightarrow> Defined v)"
| "get_prop (Arr xs) p =
     Inr (if p = P_length then Defined (Num (Finite (of_nat (length xs)))) else Undefined)"
| "get_prop (Str s) p =
     Inr (if p = P_length then Defined (Num (Finite (of_nat (length s)))) else Undefined)"
| "get_prop (Num n) p = Inr Undefined"
| "get_prop (Bool b) p = Inr Undefined"

text \<open>The values that count as false in \<open>!v\<close>, \<open>v || w\<close>, \<open>v && w\<close> and \<open>if (v)\<close>.\<close>

fun truthy :: "json \<Rightarrow> bool" where
  "truthy Null = False"
| "truthy (Bool b) = b"
| "truthy (Num n) = (n \<noteq> Finite 0)"
| "truthy (Str s) = (s \<noteq> [])"
| "truthy (Arr xs) = True"
| "truthy (Obj ms) = True"

fun truthy_js :: "jsval \<Rightarrow> bool" where
  "truthy_js Undefined = False"
| "truthy_js (Defined v) = truthy v"

text \<open>\<open>v || w\<close> where \<open>w\<close> is a parsed value.\<close>

fun or_else :: "jsval \<Rightarrow> json \<Rightarrow> json" where
  "or_else Undefined w = w"
| "or_else (Defined v) w = (if truthy v then v else w)"

fun isArray :: "json \<Rightarrow> bool" where
  "isArray (Arr xs) = True"
| "isArray v = False"

fun is_reference :: "jsval \<Rightarrow> bool" where
  "is_reference (Defined (Arr xs)) = True"
| "is_reference (Defined (Obj ms)) = True"
| "is_reference v = False"

text \<open>
  \<open>x === y\<close> for \<open>x\<close> read from element \<open>j\<close> and \<open>y\<close> read from element \<open>i\<close> of the
  fetched array. Primitive values are strictly equal when they have the same type and
  the same value. Arrays and objects are compared as references: JSON.parse builds every
  array and object of a document anew, so two of them are the same reference only when
  they were read from the same element.
\<close>

definition strict_equals :: "nat \<times> jsval \<Rightarrow> nat \<times> jsval \<Rightarrow> bool" where
  "strict_equals a b =
     (if is_reference (snd a) then is_reference (snd b) \<and> fst a = fst b
      else snd a = snd b)"

subsection \<open>Array.prototype.findIndex, filter and map with callbacks that may throw\<close>

fun findIndex :: "(json \<Rightarrow> nat \<Rightarrow> exn + bool) \<Rightarrow> nat \<Rightarrow> json list \<Rightarrow> exn + int" where
  "findIndex p k [] = Inr (- 1)"
| "findIndex p k (a # as) =
     (case p a k of
        Inl e \<Rightarrow> Inl e
      | Inr found \<Rightarrow> if found then Inr (int k) else findIndex p (Suc k) as)"

fun filter_js :: "(json \<Rightarrow> nat \<Rightarrow> exn + bool) \<Rightarrow> nat \<Rightarrow> json list \<Rightarrow> exn + json list" where
  "filter_js p k [] = Inr []"
| "filter_js p k (x # xs) =
     (case p x k of
        Inl e \<Rightarrow> Inl e
      | Inr keep \<Rightarrow>
          (case filter_js p (Suc k) xs of
             Inl e \<Rightarrow> Inl e
           | Inr ys \<Rightarrow> Inr (if keep then x # ys else ys)))"

fun map_js :: "('a \<Rightarrow> exn + 'b) \<Rightarrow> 'a list \<Rightarrow> exn + 'b list" where
  "map_js f [] = Inr []"
| "map_js f (x # xs) =
     (case f x of
        Inl e \<Rightarrow> Inl e
      | Inr y \<Rightarrow> (case map_js f xs of Inl e \<Rightarrow> Inl e | Inr ys \<Rightarrow> Inr (y # ys)))"

subsection \<open>The component\<close>

text \<open>The three \<open>useState\<close> cells.\<close>

record component =
  data :: json
  loading :: bool
  error :: json

definition initial :: component where
  "initial = \<lparr>data = Null, loading = True, error = Null\<rparr>"

text \<open>
  What the network gives back to one \<open>fetch\<close>: the promise is rejected, or it resolves
  to a response with a status and a body that \<open>response.json()\<close> parses or rejects.
  \<open>response.ok\<close> holds for the statuses 200 to 299.
\<close>

datatype body = Unparsable | Parsed json

datatype fetch_result = Rejected | Response nat body

datatype request = Get string nat

definition ok :: "nat \<Rightarrow> bool" where
  "ok status = (200 \<le> status \<and> status \<le> 299)"

definition feed_url :: string where
  "feed_url = ''https://raw.githubusercontent.com/thenext90/noticias_isotools_cms/main/isotools-daily-news.json''"

definition load_error_message :: json where
  "load_error_message = Str ''No se pudieron cargar las noticias de ISOTools.''"

text \<open>
  The body of the \<open>try\<close> block of \<open>fetchData\<close>: the value handed to \<open>setData\<close>, or what
  was thrown. \<open>timestamp\<close> is \<open>Date.now()\<close>; the request goes out as
  \<open>Get feed_url timestamp\<close>.
\<close>

definition fetch_try :: "fetch_result \<Rightarrow> exn + json" where
  "fetch_try r =
     (case r of
        Rejected \<Rightarrow> Inl NetworkError
      | Response status b \<Rightarrow>
          if \<not> ok status then Inl (HttpError ''No se pudo cargar el archivo remoto'')
          else (case b of
                  Unparsable \<Rightarrow> Inl SyntaxError
                | Parsed json \<Rightarrow>
                    (case get_prop json P_daily_news of
                       Inl e \<Rightarrow> Inl e
                     | Inr v \<Rightarrow> Inr (or_else v (Arr [])))))"

text \<open>
  \<open>fetchData\<close>: try, catch, finally. The result is the component after the promise
  has settled, together with the requests that were sent.
\<close>

definition fetchData :: "nat \<Rightarrow> (request \<Rightarrow> fetch_result) \<Rightarrow> component \<Rightarrow> component \<times> request list" where
  "fetchData timestamp network s =
     (let req = Get feed_url timestamp;
          s1 = (case fetch_try (network req) of
                  Inr v \<Rightarrow> s\<lparr>data := v\<rparr>
                | Inl err \<Rightarrow> s\<lparr>error := load_error_message\<rparr>)
      in (s1\<lparr>loading := False\<rparr>, [req]))"

text \<open>The effect of \<open>useEffect(..., [])\<close>: one \<open>fetchData\<close> on the freshly mounted component.\<close>

definition mount :: "nat \<Rightarrow> (request \<Rightarrow> fetch_result) \<Rightarrow> component \<times> request list" where
  "mount timestamp network = fetchData timestamp network initial"

subsection \<open>Rendering\<close>

text \<open>
  \<open>v && <element>\<close> inside JSX: the element when \<open>v\<close> is truthy, otherwise the falsy
  value itself.
\<close>

datatype 'a guarded = Skipped jsval | Shown 'a

datatype image = Img (src: jsval) (alt: jsval)

datatype card = Card (key: jsval) (image_block: "image guarded") (title: jsval) (text_block: "jsval guarded")

datatype view =
    LoadingView string
  | ErrorView json
  | EmptyView string
  | Grid string "card list"

text \<open>\<open>a => a.id === item.id\<close>, with the positions the two elements sit at.\<close>

definition same_id :: "json \<Rightarrow> nat \<Rightarrow> json \<Rightarrow> nat \<Rightarrow> exn + bool" where
  "same_id item idx a j =
     (case get_prop a P_id of
        Inl e \<Rightarrow> Inl e
      | Inr x \<Rightarrow>
          (case get_prop item P_id of
             Inl e \<Rightarrow> Inl e
           | Inr y \<Rightarrow> Inr (strict_equals (j, x) (idx, y))))"

text \<open>\<open>(item, idx, arr) => arr.findIndex(a => a.id === item.id) === idx\<close>\<close>

definition first_with_id :: "json list \<Rightarrow> json \<Rightarrow> nat \<Rightarrow> exn + bool" where
  "first_with_id arr item idx =
     (case findIndex (same_id item idx) 0 arr of
        Inl e \<Rightarrow> Inl e
      | Inr k \<Rightarrow> Inr (k = int idx))"

definition uniqueArticles :: "json \<Rightarrow> exn + json list" where
  "uniqueArticles d =
     (case d of
        Arr xs \<Rightarrow> filter_js (first_with_id xs) 0 xs
      | _ \<Rightarrow> Inr [])"

text \<open>
  \<open>'' + v\<close>, the conversion of a value to a string, throws a TypeError when it meets an
  object that cannot be made primitive. No parsed value is callable, so an own member
  named \<open>toString\<close> hides \<open>Object.prototype.toString\<close> and the conversion of that
  object fails (its \<open>valueOf\<close>, own or inherited, never gives a primitive); every other
  object becomes \<open>[object Object]\<close>. An array is joined: \<open>null\<close> elements give the empty
  string and every other element is converted in turn.
\<close>

fun stringifiable :: "json \<Rightarrow> bool" where
  "stringifiable (Obj ms) = (''toString'' \<notin> fst ` set ms)"
| "stringifiable (Arr xs) = (\<forall>x\<in>set xs. stringifiable x)"
| "stringifiable v = True"

fun stringifiable_js :: "jsval \<Rightarrow> bool" where
  "stringifiable_js Undefined = True"
| "stringifiable_js (Defined v) = stringifiable v"

text \<open>
  \<open>key={article.id}\<close>: when the id is not \<open>undefined\<close> the JSX runtime computes the key
  as \<open>'' + id\<close> while the component function runs. The card keeps the id the key is
  made from.
\<close>

definition coerce_key :: "jsval \<Rightarrow> exn + jsval" where
  "coerce_key i = (if stringifiable_js i then Inr i else Inl TypeError)"

definition render_card :: "json \<Rightarrow> exn + card" where
  "render_card article =
     (case get_prop article P_image_url of Inl e \<Rightarrow> Inl e | Inr u \<Rightarrow>
      case get_prop article P_title of Inl e \<Rightarrow> Inl e | Inr t \<Rightarrow>
      case get_prop article P_text of Inl e \<Rightarrow> Inl e | Inr b \<Rightarrow>
      case get_prop article P_id of Inl e \<Rightarrow> Inl e | Inr i \<Rightarrow>
      case coerce_key i of Inl e \<Rightarrow> Inl e | Inr k \<Rightarrow>
        Inr (Card k
               (if truthy_js u then Shown (Img u t) else Skipped u)
               t
               (if truthy_js b then Shown b else Skipped b)))"

definition heading :: string where
  "heading = ''Consejos y tendencias para ayudarte a mejorar tus sistemas de gesti'' @ [CHR 0xF3] @ ''n''"

text \<open>\<open>!data || data.length === 0\<close>\<close>

definition no_data :: "json \<Rightarrow> exn + bool" where
  "no_data d =
     (if \<not> truthy d then Inr True
      else (case get_prop d P_length of
              Inl e \<Rightarrow> Inl e
            | Inr n \<Rightarrow> Inr (n = Defined (Num (Finite 0)))))"

text \<open>The component function: the elements it returns, or what it throws.\<close>

definition ISOToolsSectionClient :: "component \<Rightarrow> exn + view" where
  "ISOToolsSectionClient s =
     (if loading s then Inr (LoadingView ''Cargando noticias ISOTools...'')
      else if truthy (error s) then Inr (ErrorView (error s))
      else (case no_data (data s) of
              Inl e \<Rightarrow> Inl e
            | Inr True \<Rightarrow> Inr (EmptyView ''No hay noticias disponibles.'')
            | Inr False \<Rightarrow>
                (case uniqueArticles (data s) of
                   Inl e \<Rightarrow> Inl e
                 | Inr arts \<Rightarrow>
                     (case map_js render_card arts of
                        Inl e \<Rightarrow> Inl e
                      | Inr cs \<Rightarrow> Inr (Grid heading cs)))))"

subsection \<open>What React makes of the returned elements\<close>

text \<open>
  A value placed between tags is a child. Strings and numbers become text, \<open>undefined\<close>,
  \<open>null\<close> and booleans show nothing, an array stands for its elements; an object is
  refused with the error ``Objects are not valid as a React child''.
\<close>

fun valid_child :: "json \<Rightarrow> bool" where
  "valid_child (Obj ms) = False"
| "valid_child (Arr xs) = (\<forall>x\<in>set xs. valid_child x)"
| "valid_child v = True"

fun valid_child_js :: "jsval \<Rightarrow> bool" where
  "valid_child_js Undefined = True"
| "valid_child_js (Defined v) = valid_child v"

definition child_error :: "jsval \<Rightarrow> exn option" where
  "child_error v = (if valid_child_js v then None else Some InvalidChild)"

text \<open>
  The attributes \<open>src\<close> and \<open>alt\<close> of the image are written as \<open>'' + value\<close>
  (\<open>undefined\<close>, \<open>null\<close> and booleans are left out), in that order.
\<close>

definition attributes_error :: "image guarded \<Rightarrow> exn option" where
  "attributes_error g =
     (case g of
        Skipped v \<Rightarrow> None
      | Shown i \<Rightarrow>
          if \<not> stringifiable_js (src i) then Some TypeError
          else if \<not> stringifiable_js (alt i) then Some TypeError
          else None)"

text \<open>
  One card, in the order React works through it: the image with its attributes, the
  title inside the heading, the text inside the paragraph. A skipped block leaves a
  falsy value behind, which is a valid child.
\<close>

definition card_error :: "card \<Rightarrow> exn option" where
  "card_error c =
     (case attributes_error (image_block c) of
        Some e \<Rightarrow> Some e
      | None \<Rightarrow>
          (case child_error (title c) of
             Some e \<Rightarrow> Some e
           | None \<Rightarrow>
               (case text_block c of
                  Shown b \<Rightarrow> child_error b
                | Skipped v \<Rightarrow> None)))"

fun first_error :: "card list \<Rightarrow> exn option" where
  "first_error [] = None"
| "first_error (c # cs) = (case card_error c of Some e \<Rightarrow> Some e | None \<Rightarrow> first_error cs)"

text \<open>
  There is no error boundary: an error while React works through the elements leaves
  nothing on the screen.
\<close>

definition react_render :: "view \<Rightarrow> exn + view" where
  "react_render v =
     (case v of
        Grid h cs \<Rightarrow> (case first_error cs of Some e \<Rightarrow> Inl e | None \<Rightarrow> Inr v)
      | ErrorView e \<Rightarrow> if valid_child e then Inr v else Inl InvalidChild
      | _ \<Rightarrow> Inr v)"

text \<open>What is on the screen for a state of the component, or the error that left it empty.\<close>

definition render :: "component \<Rightarrow> exn + view" where
  "render s = (case ISOToolsSectionClient s of Inl e \<Rightarrow> Inl e | Inr v \<Rightarrow> react_render v)"

fun cards :: "view \<Rightarrow> card list" where
  "cards (Grid h cs) = cs"
| "cards v = []"

subsection \<open>The vocabulary of the description\<close>

text \<open>A network that gives the same answer to every request.\<close>

definition answering :: "fetch_result \<Rightarrow> request \<Rightarrow> fetch_result" where
  "answering r req = r"

text \<open>
  The failures of a load: a transport error, a status that does not indicate success
  (whatever the body), a body of a successful response that is not JSON.
\<close>

fun load_fails :: "fetch_result \<Rightarrow> bool" where
  "load_fails Rejected = True"
| "load_fails (Response status Unparsable) = True"
| "load_fails (Response status (Parsed v)) = (\<not> ok status)"

text \<open>A field is present in a document when the document is an object with a member of that name.\<close>

definition has_field :: "json \<Rightarrow> property \<Rightarrow> bool" where
  "has_field v p = (case v of Obj ms \<Rightarrow> prop_name p \<in> fst ` set ms | _ \<Rightarrow> False)"

text \<open>The value of \<open>a.p\<close> for an element \<open>a\<close> other than \<open>null\<close>.\<close>

definition field :: "property \<Rightarrow> json \<Rightarrow> jsval" where
  "field p a = (case get_prop a p of Inr x \<Rightarrow> x | Inl e \<Rightarrow> Undefined)"

text \<open>
  Deduplication as the description words it: the article at position \<open>i\<close> is kept if
  and only if no earlier position \<open>j < i\<close> shares its id, and the kept articles stay in
  their original order.
\<close>

definition shares_id :: "json list \<Rightarrow> nat \<Rightarrow> nat \<Rightarrow> bool" where
  "shares_id xs j i = strict_equals (j, field P_id (xs ! j)) (i, field P_id (xs ! i))"

definition first_occurrence :: "json list \<Rightarrow> nat \<Rightarrow> bool" where
  "first_occurrence xs i = (\<forall>j<i. \<not> shares_id xs j i)"

definition first_occurrences :: "json list \<Rightarrow> json list" where
  "first_occurrences xs = map (\<lambda>i. xs ! i) (filter (first_occurrence xs) [0..<length xs])"

text \<open>
  What \<open>===\<close> identifies an id with: its value when it is primitive, the element it
  belongs to when it is an array or an object. The distinct ids of a sequence are counted
  up to \<open>===\<close>.
\<close>

definition identity :: "nat \<times> jsval \<Rightarrow> nat + jsval" where
  "identity a = (if is_reference (snd a) then Inl (fst a) else Inr (snd a))"

definition distinct_ids :: "json list \<Rightarrow> nat" where
  "distinct_ids xs = card ((\<lambda>i. identity (i, field P_id (xs ! i))) ` {..<length xs})"

text \<open>The \<open>typeof\<close> of a value.\<close>

fun typeof :: "jsval \<Rightarrow> string" where
  "typeof Undefined = ''undefined''"
| "typeof (Defined Null) = ''object''"
| "typeof (Defined (Bool b)) = ''boolean''"
| "typeof (Defined (Num n)) = ''number''"
| "typeof (Defined (Str s)) = ''string''"
| "typeof (Defined (Arr xs)) = ''object''"
| "typeof (Defined (Obj ms)) = ''object''"

definition lacks_id :: "json \<Rightarrow> bool" where
  "lacks_id a = (field P_id a = Undefined)"

fun is_shown :: "'a guarded \<Rightarrow> bool" where
  "is_shown (Shown x) = True"
| "is_shown (Skipped v) = False"

text \<open>The lines of a text, broken at line feeds.\<close>

fun split_lines :: "string \<Rightarrow> string list" where
  "split_lines [] = [[]]"
| "split_lines (c # cs) =
     (if c = CHR 0x0A then [] # split_lines cs
      else (case split_lines cs of l # ls \<Rightarrow> (c # l) # ls | [] \<Rightarrow> [[c]]))"

text \<open>The card of an article other than \<open>null\<close> whose id can be made a key.\<close>

definition article_card :: "json \<Rightarrow> card" where
  "article_card a = Card (field P_id a)
     (if truthy_js (field P_image_url a) then Shown (Img (field P_image_url a) (field P_title a))
      else Skipped (field P_image_url a))
     (field P_title a)
     (if truthy_js (field P_text a) then Shown (field P_text a) else Skipped (field P_text a))"

text \<open>
  An article that React can show: its id and its image address can be made strings,
  and neither its title nor its text is an object or an array holding one.
\<close>

definition renderable :: "json \<Rightarrow> bool" where
  "renderable a =
     (stringifiable_js (field P_id a) \<and> stringifiable_js (field P_image_url a)
      \<and> valid_child_js (field P_title a) \<and> valid_child_js (field P_text a))"

text \<open>A feed with repeated, absent and differently typed ids, and with elements that are not objects.\<close>

definition example_articles :: "json list" where
  "example_articles =
     [Obj [(''id'', Num (Finite 7)), (''title'', Str ''x''), (''image_url'', Str ''u'')],
      Obj [(''id'', Str ''7''), (''title'', Str ''y''), (''text'', Str [])],
      Obj [(''title'', Str ''z'')],
      Obj [(''id'', Num (Finite 7)), (''title'', Str ''w'')],
      Str ''v'',
      Obj [(''id'', Arr []), (''text'', Str ''t'')],
      Obj [(''id'', Arr [])]]"

definition example_feed :: json where
  "example_feed = Obj [(''daily_news'', Arr example_articles)]"

text \<open>The scenario of the description.\<close>

definition scenario_payload :: json where
  "scenario_payload =
     Obj [(''daily_news'',
       Arr [Obj [(''id'', Num (Finite 1)), (''title'', Str ''A'')],
            Obj [(''id'', Num (Finite 1)), (''title'', Str ''A-dup'')],
            Obj [(''id'', Num (Finite 2)), (''title'', Str ''B''),
                 (''text'', Str (''Body'' @ [CHR 0x0A] @ ''Line2'')),
                 (''image_url'', Str ''http://x/y.png'')]])]"

text \<open>Ids that differ in type, a repeated id, and articles without an id.\<close>

definition typed_ids :: "json list" where
  "typed_ids =
     [Obj [(''id'', Num (Finite 1)), (''title'', Str ''a'')],
      Obj [(''id'', Num (Finite 2)), (''title'', Str ''b'')],
      Obj [(''id'', Str ''2''), (''title'', Str ''c'')],
      Obj [(''id'', Str ''1''), (''title'', Str ''d'')],
      Obj [(''id'', Num (Finite 1)), (''title'', Str ''e'')],
      Obj [(''title'', Str ''f'')],
      Obj [(''title'', Str ''g'')]]"

text \<open>An article with every field set, and one whose optional fields are present but falsy.\<close>

definition shown_article :: json where
  "shown_article = Obj [(''id'', Num (Finite 4)), (''title'', Str ''T''),
      (''text'', Str (''one'' @ [CHR 0x0A] @ ''two'')), (''image_url'', Str ''http://x/z.png'')]"

definition falsy_article :: json where
  "falsy_article = Obj [(''id'', Num (Finite 3)), (''title'', Str ''T''),
      (''text'', Str []), (''image_url'', Null)]"

text \<open>
  Articles that leave nothing on the screen: an object as title, an object as text, an
  id that cannot be made a string, an image address that cannot be made a string. And
  two articles whose ids are equal arrays.
\<close>

definition object_title_article :: json where
  "object_title_article =
     Obj [(''id'', Num (Finite 1)), (''title'', Obj [(''a'', Num (Finite 1))])]"

definition object_text_article :: json where
  "object_text_article =
     Obj [(''id'', Num (Finite 1)), (''title'', Str ''t''), (''text'', Obj [(''a'', Num (Finite 1))])]"

definition unprintable_key_article :: json where
  "unprintable_key_article =
     Obj [(''id'', Obj [(''toString'', Num (Finite 0))]), (''title'', Str ''k'')]"

definition unprintable_image_article :: json where
  "unprintable_image_article =
     Obj [(''id'', Num (Finite 1)), (''title'', Str ''u''),
          (''image_url'', Obj [(''toString'', Num (Finite 0))])]"

definition array_id_articles :: "json list" where
  "array_id_articles =
     [Obj [(''id'', Arr [Num (Finite 1)]), (''title'', Str ''a'')],
      Obj [(''id'', Arr [Num (Finite 1)]), (''title'', Str ''b'')]]"

section \<open>Lemmas\<close>

subsection \<open>findIndex and filter on arrays without null\<close>

lemma findIndex_first:
  assumes "\<forall>n<length as. p (as ! n) (k + n) = Inr (q (k + n))" "m < length as" "q (k + m)"
  shows "\<exists>r. findIndex p k as = Inr r \<and> (r = int (k + m) \<longleftrightarrow> (\<forall>n<m. \<not> q (k + n)))"
  using assms
proof (induction as arbitrary: k m)
  case Nil
  then show ?case by simp
next
  case (Cons a as)
  from Cons.prems(1) have pa: "p a k = Inr (q k)" by force
  show ?case
  proof (cases "q k")
    case True
    then show ?thesis using pa by (cases m) auto
  next
    case False
    with Cons.prems(3) obtain m' where m: "m = Suc m'" by (cases m) auto
    have tl: "\<forall>n<length as. p (as ! n) (Suc k + n) = Inr (q (Suc k + n))"
      using Cons.prems(1) by fastforce
    from Cons.IH[OF tl, of m'] Cons.prems m
    obtain r where r: "findIndex p (Suc k) as = Inr r"
      "r = int (Suc k + m') \<longleftrightarrow> (\<forall>n<m'. \<not> q (Suc k + n))" by auto
    have "(\<forall>n<m. \<not> q (k + n)) \<longleftrightarrow> (\<forall>n<m'. \<not> q (Suc k + n))"
      using False m by (auto simp: less_Suc_eq_0_disj)
    then show ?thesis using pa False r m by simp
  qed
qed

lemma filter_js_total:
  assumes "\<forall>n<length xs. p (xs ! n) (k + n) = Inr (q (k + n))"
  shows "filter_js p k xs = Inr (map (\<lambda>n. xs ! n) (filter (\<lambda>n. q (k + n)) [0..<length xs]))"
  using assms
proof (induction xs arbitrary: k)
  case Nil
  then show ?case by simp
next
  case (Cons x xs)
  from Cons.prems have px: "p x k = Inr (q k)" by force
  have tl: "\<forall>n<length xs. p (xs ! n) (Suc k + n) = Inr (q (Suc k + n))"
    using Cons.prems by fastforce
  have split: "[0..<length (x # xs)] = 0 # map Suc [0..<length xs]"
    by (simp add: upt_conv_Cons map_Suc_upt del: upt_Suc)
  show ?case
    unfolding split using px Cons.IH[OF tl]
    by (simp add: filter_map comp_def)
qed

lemma get_prop_not_Null: "a \<noteq> Null \<Longrightarrow> get_prop a p = Inr (field p a)"
  by (cases a) (simp_all add: field_def)

lemma strict_equals_refl: "strict_equals (i, x) (i, x)"
  by (simp add: strict_equals_def)

lemma same_id_total:
  assumes "a \<noteq> Null" "item \<noteq> Null"
  shows "same_id item idx a j = Inr (strict_equals (j, field P_id a) (idx, field P_id item))"
  using assms by (simp add: same_id_def get_prop_not_Null)

lemma first_with_id_total:
  assumes nn: "Null \<notin> set xs" and i: "i < length xs"
  shows "first_with_id xs (xs ! i) i = Inr (first_occurrence xs i)"
proof -
  let ?q = "\<lambda>j. shares_id xs j i"
  have item: "xs ! i \<noteq> Null" using nn i by (metis nth_mem)
  have "\<forall>n<length xs. same_id (xs ! i) i (xs ! n) (0 + n) = Inr (?q (0 + n))"
  proof (intro allI impI)
    fix n assume "n < length xs"
    then have "xs ! n \<noteq> Null" using nn by (metis nth_mem)
    then show "same_id (xs ! i) i (xs ! n) (0 + n) = Inr (?q (0 + n))"
      using item by (simp add: same_id_total shares_id_def)
  qed
  moreover have "?q (0 + i)" by (simp add: shares_id_def strict_equals_refl)
  ultimately obtain r where "findIndex (same_id (xs ! i) i) 0 xs = Inr r"
    "r = int (0 + i) \<longleftrightarrow> (\<forall>n<i. \<not> ?q (0 + n))"
    using findIndex_first[of xs "same_id (xs ! i) i" 0 ?q i] i by blast
  then show ?thesis by (simp add: first_with_id_def first_occurrence_def)
qed

lemma uniqueArticles_first_occurrences:
  assumes "Null \<notin> set xs"
  shows "uniqueArticles (Arr xs) = Inr (first_occurrences xs)"
proof -
  have "\<forall>n<length xs. first_with_id xs (xs ! n) (0 + n) = Inr (first_occurrence xs (0 + n))"
    using assms by (simp add: first_with_id_total)
  from filter_js_total[OF this] show ?thesis
    by (simp add: uniqueArticles_def first_occurrences_def)
qed

lemma filter_js_Inr_total:
  "filter_js p k xs = Inr ys \<Longrightarrow> n < length xs \<Longrightarrow> \<exists>b. p (xs ! n) (k + n) = Inr b"
proof (induction xs arbitrary: k ys n)
  case Nil then show ?case by simp
next
  case (Cons x xs)
  from Cons.prems(1) obtain b zs where px: "p x k = Inr b" and tl: "filter_js p (Suc k) xs = Inr zs"
    by (auto split: sum.splits)
  show ?case
  proof (cases n)
    case 0 then show ?thesis using px by simp
  next
    case (Suc n')
    then show ?thesis using Cons.IH[OF tl, of n'] Cons.prems(2) by simp
  qed
qed

lemma same_id_Null: "a = Null \<or> item = Null \<Longrightarrow> same_id item idx a j = Inl TypeError"
  by (cases a; cases item) (auto simp: same_id_def)

lemma first_with_id_Null:
  assumes "xs \<noteq> []" shows "first_with_id xs Null i = Inl TypeError"
proof -
  obtain a as where "xs = a # as" using assms by (cases xs) auto
  then show ?thesis by (simp add: first_with_id_def same_id_Null)
qed

lemma uniqueArticles_Inr_no_Null:
  assumes "uniqueArticles (Arr xs) = Inr ys"
  shows "Null \<notin> set xs"
proof
  assume "Null \<in> set xs"
  then obtain n where n: "n < length xs" "xs ! n = Null" by (auto simp: in_set_conv_nth)
  then have "xs \<noteq> []" by auto
  then have "first_with_id xs (xs ! n) (0 + n) = Inl TypeError"
    using n by (simp add: first_with_id_Null)
  moreover from assms have "filter_js (first_with_id xs) 0 xs = Inr ys"
    by (simp add: uniqueArticles_def)
  from filter_js_Inr_total[OF this n(1)] obtain b where "first_with_id xs (xs ! n) (0 + n) = Inr b" ..
  ultimately show False by simp
qed

lemma set_first_occurrences: "set (first_occurrences xs) \<subseteq> set xs"
  by (auto simp: first_occurrences_def)

lemma map_js_total:
  "\<forall>x\<in>set xs. f x = Inr (g x) \<Longrightarrow> map_js f xs = Inr (map g xs)"
  by (induction xs) auto

lemma render_card_not_Null:
  "a \<noteq> Null \<Longrightarrow> stringifiable_js (field P_id a) \<Longrightarrow> render_card a = Inr (article_card a)"
  by (simp add: render_card_def coerce_key_def get_prop_not_Null article_card_def)

lemma strict_equals_identity: "strict_equals a b \<longleftrightarrow> identity a = identity b"
  by (cases a; cases b) (auto simp: strict_equals_def identity_def)

lemma length_first_seen:
  "length (filter (\<lambda>i. \<forall>j<i. f j \<noteq> f i) [0..<n]) = card (f ` {..<n})"
proof (induction n)
  case 0 then show ?case by simp
next
  case (Suc n)
  have "(\<forall>j<n. f j \<noteq> f n) \<longleftrightarrow> f n \<notin> f ` {..<n}"
    by (metis image_iff lessThan_iff)
  then show ?case using Suc by (simp add: lessThan_Suc card_insert_if)
qed

lemma length_first_occurrences: "length (first_occurrences xs) = distinct_ids xs"
  unfolding first_occurrences_def distinct_ids_def first_occurrence_def shares_id_def
    strict_equals_identity
  by (simp add: length_first_seen)

lemma strict_equals_apart:
  "j \<noteq> i \<Longrightarrow> strict_equals (j, x) (i, y) \<longleftrightarrow> \<not> is_reference x \<and> x = y"
  by (auto simp: strict_equals_def)

lemma first_occurrences_all:
  assumes "\<forall>i<length ys. first_occurrence ys i" shows "first_occurrences ys = ys"
proof -
  have "filter (first_occurrence ys) [0..<length ys] = [0..<length ys]"
    using assms by (simp add: filter_id_conv)
  then show ?thesis by (simp add: first_occurrences_def map_nth)
qed

lemma first_occurrences_idem: "first_occurrences (first_occurrences xs) = first_occurrences xs"
proof (rule first_occurrences_all, intro allI impI)
  let ?is = "filter (first_occurrence xs) [0..<length xs]"
  let ?ys = "first_occurrences xs"
  fix t assume t: "t < length ?ys"
  have len: "length ?ys = length ?is" by (simp add: first_occurrences_def)
  have sorted: "sorted_wrt (<) ?is" by (simp add: sorted_wrt_filter)
  have nth: "\<And>s. s < length ?is \<Longrightarrow> ?ys ! s = xs ! (?is ! s)"
    by (simp add: first_occurrences_def)
  have kept: "first_occurrence xs (?is ! t)"
    using t len nth_mem[of t ?is] by auto
  show "first_occurrence ?ys t"
    unfolding first_occurrence_def
  proof (intro allI impI)
    fix s assume s: "s < t"
    then have lt: "?is ! s < ?is ! t" using sorted t len by (simp add: sorted_wrt_nth_less)
    with kept have "\<not> shares_id xs (?is ! s) (?is ! t)" by (simp add: first_occurrence_def)
    then show "\<not> shares_id ?ys s t"
      using s t len lt by (simp add: shares_id_def nth strict_equals_apart)
  qed
qed

subsection \<open>Loading and rendering\<close>

lemma fetchData_fst:
  "fst (fetchData t network s) =
     (case fetch_try (network (Get feed_url t)) of
        Inr v \<Rightarrow> s\<lparr>data := v, loading := False\<rparr>
      | Inl e \<Rightarrow> s\<lparr>error := load_error_message, loading := False\<rparr>)"
  by (simp add: fetchData_def Let_def split: sum.splits)

lemma fetchData_snd: "snd (fetchData t network s) = [Get feed_url t]"
  by (simp add: fetchData_def Let_def)

lemma fetch_try_fails: "load_fails r \<Longrightarrow> \<exists>e. fetch_try r = Inl e"
  by (cases r rule: load_fails.cases) (simp_all add: fetch_try_def)

lemma fetch_try_success:
  assumes "ok status" "get_prop doc P_daily_news = Inr v"
  shows "fetch_try (Response status (Parsed doc)) = Inr (or_else v (Arr []))"
  using assms by (simp add: fetch_try_def)

lemma mount_success:
  assumes "ok status" "network (Get feed_url t) = Response status (Parsed doc)"
    "get_prop doc P_daily_news = Inr v"
  shows "fst (mount t network) = \<lparr>data = or_else v (Arr []), loading = False, error = Null\<rparr>"
  using assms by (simp add: mount_def fetchData_fst fetch_try_success initial_def)

lemma react_render_Inr: "react_render v = Inr w \<Longrightarrow> w = v"
  by (cases v) (auto simp: react_render_def split: option.splits if_splits)

lemma render_Inr:
  "render s = Inr v \<Longrightarrow> ISOToolsSectionClient s = Inr v"
  by (auto simp: render_def split: sum.splits dest: react_render_Inr)

lemma render_empty:
  "render \<lparr>data = Arr [], loading = False, error = Null\<rparr> = Inr (EmptyView ''No hay noticias disponibles.'')"
  by (simp add: render_def ISOToolsSectionClient_def react_render_def no_data_def)

lemma valid_child_stringifiable: "valid_child v \<Longrightarrow> stringifiable v"
  by (induction v rule: stringifiable.induct) auto

lemma card_error_article_card:
  assumes "renderable a"
  shows "card_error (article_card a) = None"
proof -
  from assms have k: "stringifiable_js (field P_image_url a)"
    and t: "valid_child_js (field P_title a)" and b: "valid_child_js (field P_text a)"
    by (simp_all add: renderable_def)
  from t have "stringifiable_js (field P_title a)"
    by (cases "field P_title a") (simp_all add: valid_child_stringifiable)
  with k t b show ?thesis
    by (simp add: card_error_def attributes_error_def child_error_def article_card_def)
qed

lemma first_error_None: "\<forall>c\<in>set cs. card_error c = None \<Longrightarrow> first_error cs = None"
  by (induction cs) auto

lemma no_data_nonempty: "xs \<noteq> [] \<Longrightarrow> no_data (Arr xs) = Inr False"
  by (simp add: no_data_def)

lemma render_grid:
  assumes "\<not> loading s" and "\<not> truthy (error s)"
    and "no_data (data s) = Inr False"
    and "uniqueArticles (data s) = Inr arts"
    and "\<forall>a\<in>set arts. a \<noteq> Null \<and> renderable a"
  shows "render s = Inr (Grid heading (map article_card arts))"
proof -
  have "\<forall>a\<in>set arts. render_card a = Inr (article_card a)"
    using assms(5) by (simp add: render_card_not_Null renderable_def)
  then have cs: "map_js render_card arts = Inr (map article_card arts)"
    by (rule map_js_total)
  have "\<forall>c\<in>set (map article_card arts). card_error c = None"
    using assms(5) by (auto simp: card_error_article_card)
  then have "first_error (map article_card arts) = None"
    by (rule first_error_None)
  with cs assms(1-4) show ?thesis
    by (simp add: render_def ISOToolsSectionClient_def react_render_def)
qed

lemma render_articles:
  assumes "Null \<notin> set xs" and "\<forall>a\<in>set (first_occurrences xs). renderable a"
  shows "\<exists>v. render \<lparr>data = Arr xs, loading = False, error = Null\<rparr> = Inr v
           \<and> cards v = map article_card (first_occurrences xs)"
proof (cases xs)
  case Nil
  then show ?thesis by (simp add: render_empty first_occurrences_def)
next
  case (Cons x xs')
  let ?s = "\<lparr>data = Arr xs, loading = False, error = Null\<rparr>"
  have nd: "no_data (data ?s) = Inr False" using Cons by (simp add: no_data_nonempty)
  have ua: "uniqueArticles (data ?s) = Inr (first_occurrences xs)"
    using assms(1) by (simp add: uniqueArticles_first_occurrences)
  have "\<forall>a\<in>set (first_occurrences xs). a \<noteq> Null \<and> renderable a"
    using assms set_first_occurrences[of xs] by blast
  from render_grid[of ?s, OF _ _ nd ua this] show ?thesis by simp
qed

lemma get_prop_absent:
  assumes "doc \<noteq> Null" "\<not> has_field doc p" "p \<noteq> P_length"
  shows "get_prop doc p = Inr Undefined"
proof (cases doc)
  case (Obj ms)
  with assms(2) have "prop_name p \<notin> fst ` set (rev ms)" by (simp add: has_field_def)
  then have "map_of (rev ms) (prop_name p) = None" by (simp add: map_of_eq_None_iff)
  then show ?thesis using Obj by simp
qed (use assms in simp_all)

lemma uniqueArticles_not_array: "\<not> isArray v \<Longrightarrow> uniqueArticles v = Inr []"
  by (cases v) (simp_all add: uniqueArticles_def)

lemma no_data_total: "\<exists>b. no_data v = Inr b"
  by (cases v) (auto simp: no_data_def)

lemma render_not_array:
  assumes "\<not> isArray v"
  shows "\<exists>w. render \<lparr>data = v, loading = False, error = Null\<rparr> = Inr w \<and> cards w = []"
proof -
  obtain b where b: "no_data v = Inr b" using no_data_total by blast
  show ?thesis
    using b assms
    by (cases b)
       (simp_all add: render_def ISOToolsSectionClient_def react_render_def uniqueArticles_not_array)
qed

lemma uniqueArticles_idem:
  assumes "uniqueArticles d = Inr ys"
  shows "uniqueArticles (Arr ys) = Inr ys"
proof (cases "isArray d")
  case False
  then have "ys = []" using assms by (simp add: uniqueArticles_not_array)
  then show ?thesis by (simp add: uniqueArticles_def)
next
  case True
  then obtain xs where d: "d = Arr xs" by (cases d) auto
  with assms have nn: "Null \<notin> set xs" by (auto dest: uniqueArticles_Inr_no_Null)
  then have ys: "ys = first_occurrences xs"
    using assms d by (simp add: uniqueArticles_first_occurrences)
  then have "Null \<notin> set ys" using nn set_first_occurrences[of xs] by blast
  then show ?thesis
    using ys by (simp add: uniqueArticles_first_occurrences first_occurrences_idem)
qed

lemma uniqueArticles_members_not_Null:
  assumes "uniqueArticles d = Inr arts" "a \<in> set arts"
  shows "a \<noteq> Null"
proof (cases "isArray d")
  case False
  then show ?thesis using assms by (simp add: uniqueArticles_not_array)
next
  case True
  then obtain xs where d: "d = Arr xs" by (cases d) auto
  with assms(1) have nn: "Null \<notin> set xs" by (auto dest: uniqueArticles_Inr_no_Null)
  then have "arts = first_occurrences xs"
    using assms(1) d by (simp add: uniqueArticles_first_occurrences)
  then show ?thesis using nn assms(2) set_first_occurrences[of xs] by blast
qed

lemma uniqueArticles_nonempty:
  assumes "uniqueArticles d = Inr arts" "arts \<noteq> []"
  shows "no_data d = Inr False"
proof (cases "isArray d")
  case False
  then show ?thesis using assms by (simp add: uniqueArticles_not_array)
next
  case True
  then obtain xs where d: "d = Arr xs" by (cases d) auto
  have "xs \<noteq> []"
  proof
    assume "xs = []"
    with assms(1) d have "arts = []" by (simp add: uniqueArticles_def)
    with assms(2) show False by simp
  qed
  then show ?thesis using d by (simp add: no_data_nonempty)
qed

lemma truthy_field_present:
  assumes "truthy_js (field p a)" "p \<noteq> P_length"
  shows "has_field a p"
proof (cases a)
  case (Obj ms)
  with assms(1) have "map_of (rev ms) (prop_name p) \<noteq> None"
    by (auto simp: field_def split: option.splits)
  then have "prop_name p \<in> fst ` set (rev ms)" by (simp add: map_of_eq_None_iff)
  then show ?thesis using Obj by (simp add: has_field_def)
qed (use assms in \<open>simp_all add: field_def\<close>)

lemma distinct_ids_primitive:
  assumes "\<forall>a\<in>set xs. \<not> is_reference (field P_id a)"
  shows "distinct_ids xs = card (field P_id ` set xs)"
proof -
  have "(\<lambda>i. identity (i, field P_id (xs ! i))) ` {..<length xs}
          = (\<lambda>i. Inr (field P_id (xs ! i))) ` {..<length xs}"
    using assms by (intro image_cong) (auto simp: identity_def)
  also have "\<dots> = Inr ` field P_id ` ((\<lambda>i. xs ! i) ` {..<length xs})"
    by (simp add: image_image)
  also have "(\<lambda>i. xs ! i) ` {..<length xs} = set xs"
    by (auto simp: set_conv_nth)
  finally have "distinct_ids xs = card (Inr ` field P_id ` set xs :: (nat + jsval) set)"
    by (simp add: distinct_ids_def)
  then show ?thesis by (simp add: card_image)
qed

subsection \<open>Strict equality of ids\<close>

lemma strict_equals_typeof: "strict_equals (j, x) (i, y) \<Longrightarrow> typeof x = typeof y"
  by (cases x rule: typeof.cases; cases y rule: typeof.cases) (auto simp: strict_equals_def)

lemma strict_equals_Undefined: "strict_equals (j, x) (i, Undefined) \<longleftrightarrow> x = Undefined"
  by (cases x rule: is_reference.cases) (auto simp: strict_equals_def)

lemma first_unique:
  "map (\<lambda>i. xs ! i) (filter (\<lambda>i. P (xs ! i) \<and> (\<forall>j<i. \<not> P (xs ! j))) [0..<length xs])
     = take 1 (filter P xs)"
proof (induction xs rule: rev_induct)
  case Nil
  then show ?case by simp
next
  case (snoc x xs)
  let ?n = "length xs"
  have "(\<forall>j<?n. \<not> P (xs ! j)) \<longleftrightarrow> (\<forall>a\<in>set xs. \<not> P a)"
    by (metis in_set_conv_nth)
  then have none: "(\<forall>j<?n. \<not> P ((xs @ [x]) ! j)) \<longleftrightarrow> filter P xs = []"
    by (simp add: filter_empty_conv nth_append)
  have "filter (\<lambda>i. P ((xs @ [x]) ! i) \<and> (\<forall>j<i. \<not> P ((xs @ [x]) ! j))) [0..<?n]
          = filter (\<lambda>i. P (xs ! i) \<and> (\<forall>j<i. \<not> P (xs ! j))) [0..<?n]"
    by (rule filter_cong) (auto simp: nth_append)
  moreover have "map (\<lambda>i. (xs @ [x]) ! i) (filter (\<lambda>i. P (xs ! i) \<and> (\<forall>j<i. \<not> P (xs ! j))) [0..<?n])
          = map (\<lambda>i. xs ! i) (filter (\<lambda>i. P (xs ! i) \<and> (\<forall>j<i. \<not> P (xs ! j))) [0..<?n])"
    by (rule map_cong) (auto simp: nth_append)
  ultimately have
    "map (\<lambda>i. (xs @ [x]) ! i)
       (filter (\<lambda>i. P ((xs @ [x]) ! i) \<and> (\<forall>j<i. \<not> P ((xs @ [x]) ! j))) [0..<length (xs @ [x])])
     = take 1 (filter P xs) @ (if P x \<and> filter P xs = [] then [x] else [])"
    using snoc.IH none by simp
  also have "\<dots> = take 1 (filter P (xs @ [x]))"
    by (cases "filter P xs") auto
  finally show ?case .
qed

lemma lacks_id_first_occurrences:
  "filter lacks_id (first_occurrences xs) = take 1 (filter lacks_id xs)"
proof -
  have "filter (\<lambda>i. lacks_id (xs ! i)) (filter (first_occurrence xs) [0..<length xs])
          = filter (\<lambda>i. lacks_id (xs ! i) \<and> (\<forall>j<i. \<not> lacks_id (xs ! j))) [0..<length xs]"
    unfolding filter_filter
    by (rule filter_cong)
       (auto simp: first_occurrence_def shares_id_def lacks_id_def strict_equals_Undefined)
  then show ?thesis
    using first_unique[of xs lacks_id]
    by (simp add: first_occurrences_def filter_map comp_def)
qed

section \<open>The claims\<close>

text \<open>
  Claim C1, as amended. For every fetched document whose \<open>daily_news\<close> is an array with
  no \<open>null\<close> element and whose first occurrences React can show (ids and image
  addresses that can be made strings, titles and texts that are not objects), the
  rendered cards are the cards of the first occurrences: the article at position \<open>i\<close>
  is kept if and only if no earlier article has an id that is \<open>===\<close> to its own, in the
  original order. The number of cards is the number of ids that are distinct up to
  \<open>===\<close>; when no id is an array or an object this is the number of distinct id values.
\<close>

theorem rendered_cards_first_occurrences:
  assumes "ok status"
    and "network (Get feed_url t) = Response status (Parsed doc)"
    and "get_prop doc P_daily_news = Inr (Defined (Arr xs))"
    and "Null \<notin> set xs"
    and "list_all renderable (first_occurrences xs)"
  shows "\<exists>v. render (fst (mount t network)) = Inr v
           \<and> map_js render_card (first_occurrences xs) = Inr (cards v)
           \<and> length (cards v) = distinct_ids xs
           \<and> ((\<forall>a\<in>set xs. \<not> is_reference (field P_id a))
                \<longrightarrow> length (cards v) = card (field P_id ` set xs))"
proof -
  have shown: "\<forall>a\<in>set (first_occurrences xs). renderable a"
    using assms(5) by (simp add: list_all_iff)
  have "fst (mount t network) = \<lparr>data = Arr xs, loading = False, error = Null\<rparr>"
    using mount_success[where network = network, OF assms(1,2,3)] by simp
  moreover obtain v where v: "render \<lparr>data = Arr xs, loading = False, error = Null\<rparr> = Inr v"
    "cards v = map article_card (first_occurrences xs)"
    using render_articles[OF assms(4) shown] by blast
  moreover have "map_js render_card (first_occurrences xs) = Inr (map article_card (first_occurrences xs))"
  proof (rule map_js_total, rule ballI)
    fix a assume a: "a \<in> set (first_occurrences xs)"
    then have "a \<noteq> Null" using set_first_occurrences[of xs] assms(4) by blast
    moreover have "stringifiable_js (field P_id a)" using a shown by (simp add: renderable_def)
    ultimately show "render_card a = Inr (article_card a)" by (rule render_card_not_Null)
  qed
  ultimately show ?thesis
    by (auto simp: length_first_occurrences distinct_ids_primitive)
qed

theorem rendered_cards_first_occurrences_witness:
  "ok 200
   \<and> answering (Response 200 (Parsed example_feed)) (Get feed_url 0)
       = Response 200 (Parsed example_feed)
   \<and> get_prop example_feed P_daily_news = Inr (Defined (Arr example_articles))
   \<and> Null \<notin> set example_articles
   \<and> list_all renderable (first_occurrences example_articles)
   \<and> (\<exists>v. render (fst (mount 0 (answering (Response 200 (Parsed example_feed))))) = Inr v
         \<and> map_js render_card (first_occurrences example_articles) = Inr (cards v)
         \<and> length (cards v) = distinct_ids example_articles)
   \<and> get_prop (Obj [(''daily_news'', Arr typed_ids)]) P_daily_news = Inr (Defined (Arr typed_ids))
   \<and> Null \<notin> set typed_ids
   \<and> list_all renderable (first_occurrences typed_ids)
   \<and> list_all (\<lambda>a. \<not> is_reference (field P_id a)) typed_ids
   \<and> card (field P_id ` set typed_ids) = 5
   \<and> (\<exists>v. render (fst (mount 0 (answering (Response 200 (Parsed
              (Obj [(''daily_news'', Arr typed_ids)])))))) = Inr v
         \<and> length (cards v) = card (field P_id ` set typed_ids))"
proof -
  have h1: "ok 200" by (simp add: ok_def)
  have h2: "answering (Response 200 (Parsed example_feed)) (Get feed_url 0)
              = Response 200 (Parsed example_feed)"
    by (simp add: answering_def)
  have h3: "get_prop example_feed P_daily_news = Inr (Defined (Arr example_articles))"
    by (simp add: example_feed_def)
  have h4: "Null \<notin> set example_articles" by (simp add: example_articles_def)
  have "\<forall>a\<in>set example_articles. renderable a"
    by (simp add: example_articles_def renderable_def field_def)
  then have h5: "list_all renderable (first_occurrences example_articles)"
    using set_first_occurrences[of example_articles] by (auto simp: list_all_iff)
  let ?doc = "Obj [(''daily_news'', Arr typed_ids)]"
  have g2: "answering (Response 200 (Parsed ?doc)) (Get feed_url 0) = Response 200 (Parsed ?doc)"
    by (simp add: answering_def)
  have g3: "get_prop ?doc P_daily_news = Inr (Defined (Arr typed_ids))" by simp
  have g4: "Null \<notin> set typed_ids" by (simp add: typed_ids_def)
  have "\<forall>a\<in>set typed_ids. renderable a"
    by (simp add: typed_ids_def renderable_def field_def)
  then have g5: "list_all renderable (first_occurrences typed_ids)"
    using set_first_occurrences[of typed_ids] by (auto simp: list_all_iff)
  have g6: "list_all (\<lambda>a. \<not> is_reference (field P_id a)) typed_ids"
    by (simp add: typed_ids_def field_def)
  have g7: "card (field P_id ` set typed_ids) = 5"
    by (simp add: typed_ids_def field_def card_insert_if)
  from rendered_cards_first_occurrences
         [where network = "answering (Response 200 (Parsed ?doc))" and t = 0,
          OF h1 g2 g3 g4 g5] g6
  have second: "\<exists>v. render (fst (mount 0 (answering (Response 200 (Parsed ?doc))))) = Inr v
         \<and> length (cards v) = card (field P_id ` set typed_ids)"
    by (auto simp: list_all_iff)
  from rendered_cards_first_occurrences
         [where network = "answering (Response 200 (Parsed example_feed))" and t = 0,
          OF h1 h2 h3 h4 h5]
  have first: "\<exists>v. render (fst (mount 0 (answering (Response 200 (Parsed example_feed))))) = Inr v
         \<and> map_js render_card (first_occurrences example_articles) = Inr (cards v)
         \<and> length (cards v) = distinct_ids example_articles"
    by blast
  from first second h1 h2 h3 h4 h5 g3 g4 g5 g6 g7 show ?thesis by blast
qed

text \<open>
  The claim as stated covers every array. With a \<open>null\<close> element the callback of
  \<open>findIndex\<close> reads \<open>.id\<close> of \<open>null\<close> and the component function throws; with an id
  that cannot be made a string the key cannot be made; with a title that is an object
  React refuses the child: in all three cases no card is shown. Two articles whose ids
  are the array \<open>[1]\<close> have one id value between them, and both are shown: \<open>===\<close>
  compares arrays and objects as references.
\<close>

theorem null_element_counterexample:
  "render (fst (mount 0 (answering (Response 200 (Parsed (Obj [(''daily_news'', Arr [Null])]))))))
       = Inl TypeError
   \<and> render (fst (mount 0 (answering (Response 200 (Parsed
         (Obj [(''daily_news'', Arr [unprintable_key_article])]))))))
       = Inl TypeError
   \<and> render (fst (mount 0 (answering (Response 200 (Parsed
         (Obj [(''daily_news'', Arr [object_title_article])]))))))
       = Inl InvalidChild
   \<and> Null \<notin> set array_id_articles
   \<and> card (field P_id ` set array_id_articles) = 1
   \<and> render (fst (mount 0 (answering (Response 200 (Parsed
         (Obj [(''daily_news'', Arr array_id_articles)]))))))
       = Inr (Grid heading
           [Card (Defined (Arr [Num (Finite 1)])) (Skipped Undefined) (Defined (Str ''a''))
              (Skipped Undefined),
            Card (Defined (Arr [Num (Finite 1)])) (Skipped Undefined) (Defined (Str ''b''))
              (Skipped Undefined)])"
  by (simp add: mount_def fetchData_fst fetch_try_def ok_def answering_def initial_def
      render_def ISOToolsSectionClient_def react_render_def no_data_def uniqueArticles_def
      first_with_id_def same_id_def strict_equals_def render_card_def coerce_key_def
      card_error_def attributes_error_def child_error_def field_def
      object_title_article_def unprintable_key_article_def array_id_articles_def)

text \<open>
  Claim C2. Whenever a load fails (the request is rejected, the status is outside 200 to
  299 whatever the body holds, or the body of a successful response is not JSON), the
  component shows the error view with the one fixed message, the data is left as it was,
  and exactly one request has been sent: nothing is retried.
\<close>

theorem load_failure_shows_error:
  assumes "load_fails (network (Get feed_url t))"
  shows "render (fst (fetchData t network s))
           = Inr (ErrorView (Str ''No se pudieron cargar las noticias de ISOTools.''))
         \<and> error (fst (fetchData t network s)) = Str ''No se pudieron cargar las noticias de ISOTools.''
         \<and> data (fst (fetchData t network s)) = data s
         \<and> snd (fetchData t network s) = [Get feed_url t]"
proof -
  from fetch_try_fails[OF assms] obtain e where "fetch_try (network (Get feed_url t)) = Inl e" ..
  then have "fst (fetchData t network s) = s\<lparr>error := load_error_message, loading := False\<rparr>"
    by (simp add: fetchData_fst)
  then show ?thesis
    by (simp add: render_def ISOToolsSectionClient_def react_render_def load_error_message_def
        fetchData_snd)
qed

theorem load_failure_shows_error_witness:
  "load_fails (answering (Response 500 (Parsed example_feed)) (Get feed_url 0))
   \<and> render (fst (fetchData 0 (answering (Response 500 (Parsed example_feed))) initial))
           = Inr (ErrorView (Str ''No se pudieron cargar las noticias de ISOTools.''))
   \<and> error (fst (fetchData 0 (answering (Response 500 (Parsed example_feed))) initial))
           = Str ''No se pudieron cargar las noticias de ISOTools.''
   \<and> data (fst (fetchData 0 (answering (Response 500 (Parsed example_feed))) initial)) = data initial
   \<and> snd (fetchData 0 (answering (Response 500 (Parsed example_feed))) initial) = [Get feed_url 0]"
proof -
  have h: "load_fails (answering (Response 500 (Parsed example_feed)) (Get feed_url 0))"
    by (simp add: answering_def ok_def)
  from load_failure_shows_error
         [where network = "answering (Response 500 (Parsed example_feed))" and t = 0 and s = initial, OF h] h
  show ?thesis by blast
qed

text \<open>
  Claim C3, as amended. For every successful response whose parsed body is not \<open>null\<close>
  and has no \<open>daily_news\<close> field, the load stores the empty array and the component
  shows the empty state with the text ``No hay noticias disponibles.'', not the error
  view.
\<close>

theorem absent_daily_news_empty_state:
  assumes "ok status"
    and "network (Get feed_url t) = Response status (Parsed doc)"
    and "doc \<noteq> Null"
    and "\<not> has_field doc P_daily_news"
  shows "data (fst (mount t network)) = Arr []
         \<and> render (fst (mount t network)) = Inr (EmptyView ''No hay noticias disponibles.'')"
proof -
  have "get_prop doc P_daily_news = Inr Undefined"
    using assms(3,4) by (simp add: get_prop_absent)
  from mount_success[where network = network, OF assms(1,2) this]
  show ?thesis by (simp add: render_empty)
qed

theorem absent_daily_news_empty_state_witness:
  "ok 200
   \<and> answering (Response 200 (Parsed (Obj [(''updated'', Str ''today'')]))) (Get feed_url 0)
       = Response 200 (Parsed (Obj [(''updated'', Str ''today'')]))
   \<and> Obj [(''updated'', Str ''today'')] \<noteq> Null
   \<and> \<not> has_field (Obj [(''updated'', Str ''today'')]) P_daily_news
   \<and> data (fst (mount 0 (answering (Response 200 (Parsed (Obj [(''updated'', Str ''today'')])))))) = Arr []
   \<and> render (fst (mount 0 (answering (Response 200 (Parsed (Obj [(''updated'', Str ''today'')]))))))
       = Inr (EmptyView ''No hay noticias disponibles.'')"
proof -
  let ?doc = "Obj [(''updated'', Str ''today'')]"
  have h1: "ok 200" by (simp add: ok_def)
  have h2: "answering (Response 200 (Parsed ?doc)) (Get feed_url 0) = Response 200 (Parsed ?doc)"
    by (simp add: answering_def)
  have h3: "?doc \<noteq> Null" by simp
  have h4: "\<not> has_field ?doc P_daily_news" by (simp add: has_field_def)
  from absent_daily_news_empty_state
         [where network = "answering (Response 200 (Parsed ?doc))" and t = 0, OF h1 h2 h3 h4]
       h1 h2 h3 h4
  show ?thesis by blast
qed

text \<open>
  The claim as stated covers the body \<open>null\<close>, which is valid JSON and has no field:
  reading \<open>daily_news\<close> of it throws inside the \<open>try\<close> block, so the error view is
  shown.
\<close>

theorem null_document_counterexample:
  "ok 200
   \<and> \<not> has_field Null P_daily_news
   \<and> render (fst (mount 0 (answering (Response 200 (Parsed Null)))))
       = Inr (ErrorView (Str ''No se pudieron cargar las noticias de ISOTools.''))"
  by (simp add: ok_def has_field_def mount_def fetchData_fst fetch_try_def answering_def
      initial_def render_def ISOToolsSectionClient_def react_render_def load_error_message_def)

text \<open>
  Claim C4. Whatever the network answers and whatever the component held before, once
  \<open>fetchData\<close> has completed the loading flag is false and the component does not
  render the loading view.
\<close>

theorem loading_cleared:
  "loading (fst (fetchData t network s)) = False
   \<and> (\<forall>msg. render (fst (fetchData t network s)) \<noteq> Inr (LoadingView msg))"
proof -
  have off: "loading (fst (fetchData t network s)) = False"
    by (simp add: fetchData_fst split: sum.splits)
  have "render s' \<noteq> Inr (LoadingView msg)" if "\<not> loading s'" for s' msg
  proof
    assume "render s' = Inr (LoadingView msg)"
    then have "ISOToolsSectionClient s' = Inr (LoadingView msg)" by (rule render_Inr)
    with that show False
      by (auto simp: ISOToolsSectionClient_def split: sum.splits bool.splits if_splits)
  qed
  with off show ?thesis by simp
qed

text \<open>
  Claim C5. For every fetched \<open>daily_news\<close> value that is not an array, deduplication
  yields the empty list and no card is rendered.
\<close>

theorem non_array_no_cards:
  assumes "ok status"
    and "network (Get feed_url t) = Response status (Parsed doc)"
    and "get_prop doc P_daily_news = Inr (Defined v)"
    and "\<not> isArray v"
  shows "uniqueArticles v = Inr []
         \<and> (\<exists>w. render (fst (mount t network)) = Inr w \<and> cards w = [])"
proof -
  have st: "fst (mount t network) = \<lparr>data = or_else (Defined v) (Arr []), loading = False, error = Null\<rparr>"
    by (rule mount_success[where network = network, OF assms(1,2,3)])
  have "\<exists>w. render (fst (mount t network)) = Inr w \<and> cards w = []"
  proof (cases "truthy v")
    case True
    then show ?thesis using st render_not_array[OF assms(4)] by simp
  next
    case False
    then show ?thesis using st by (simp add: render_empty)
  qed
  then show ?thesis using assms(4) by (simp add: uniqueArticles_not_array)
qed

theorem non_array_no_cards_witness:
  "ok 200
   \<and> answering (Response 200 (Parsed (Obj [(''daily_news'', Str ''soon'')]))) (Get feed_url 0)
       = Response 200 (Parsed (Obj [(''daily_news'', Str ''soon'')]))
   \<and> get_prop (Obj [(''daily_news'', Str ''soon'')]) P_daily_news = Inr (Defined (Str ''soon''))
   \<and> \<not> isArray (Str ''soon'')
   \<and> uniqueArticles (Str ''soon'') = Inr []
   \<and> (\<exists>w. render (fst (mount 0 (answering (Response 200 (Parsed (Obj [(''daily_news'', Str ''soon'')]))))))
              = Inr w \<and> cards w = [])"
proof -
  let ?doc = "Obj [(''daily_news'', Str ''soon'')]"
  have h1: "ok 200" by (simp add: ok_def)
  have h2: "answering (Response 200 (Parsed ?doc)) (Get feed_url 0) = Response 200 (Parsed ?doc)"
    by (simp add: answering_def)
  have h3: "get_prop ?doc P_daily_news = Inr (Defined (Str ''soon''))" by simp
  have h4: "\<not> isArray (Str ''soon'')" by simp
  from non_array_no_cards
         [where network = "answering (Response 200 (Parsed ?doc))" and t = 0, OF h1 h2 h3 h4]
       h1 h2 h3 h4
  show ?thesis by blast
qed

text \<open>
  Claim C6. Loading again with an unchanged answer of the network, on a fresh mount or
  on the component as the first load left it, gives the same component and so the same
  deduplicated list; and deduplicating a deduplicated list leaves it unchanged.
\<close>

theorem load_and_dedup_idempotent:
  assumes "network' (Get feed_url t') = network (Get feed_url t)"
    and "uniqueArticles (data (fst (mount t network))) = Inr ys"
  shows "fst (mount t' network') = fst (mount t network)
         \<and> render (fst (mount t' network')) = render (fst (mount t network))
         \<and> fst (fetchData t' network' (fst (mount t network))) = fst (mount t network)
         \<and> uniqueArticles (data (fst (fetchData t' network' (fst (mount t network))))) = Inr ys
         \<and> uniqueArticles (Arr ys) = Inr ys"
proof -
  have again: "fst (fetchData t' network' (fst (mount t network))) = fst (mount t network)"
    using assms(1) by (simp add: mount_def fetchData_fst split: sum.splits)
  have "fst (mount t' network') = fst (mount t network)"
    using assms(1) by (simp add: mount_def fetchData_fst)
  then show ?thesis
    using again assms(2) uniqueArticles_idem[OF assms(2)] by simp
qed

theorem load_and_dedup_idempotent_witness:
  "answering (Response 200 (Parsed example_feed)) (Get feed_url 1)
     = answering (Response 200 (Parsed example_feed)) (Get feed_url 0)
   \<and> uniqueArticles (data (fst (mount 0 (answering (Response 200 (Parsed example_feed))))))
       = Inr (first_occurrences example_articles)
   \<and> fst (mount 1 (answering (Response 200 (Parsed example_feed))))
       = fst (mount 0 (answering (Response 200 (Parsed example_feed))))
   \<and> render (fst (mount 1 (answering (Response 200 (Parsed example_feed)))))
       = render (fst (mount 0 (answering (Response 200 (Parsed example_feed)))))
   \<and> fst (fetchData 1 (answering (Response 200 (Parsed example_feed)))
            (fst (mount 0 (answering (Response 200 (Parsed example_feed))))))
       = fst (mount 0 (answering (Response 200 (Parsed example_feed))))
   \<and> uniqueArticles (data (fst (fetchData 1 (answering (Response 200 (Parsed example_feed)))
            (fst (mount 0 (answering (Response 200 (Parsed example_feed))))))))
       = Inr (first_occurrences example_articles)
   \<and> uniqueArticles (Arr (first_occurrences example_articles))
       = Inr (first_occurrences example_articles)"
proof -
  let ?net = "answering (Response 200 (Parsed example_feed))"
  have h1: "?net (Get feed_url 1) = ?net (Get feed_url 0)" by (simp add: answering_def)
  have "Null \<notin> set example_articles" by (simp add: example_articles_def)
  then have "uniqueArticles (Arr example_articles) = Inr (first_occurrences example_articles)"
    by (rule uniqueArticles_first_occurrences)
  then have h2: "uniqueArticles (data (fst (mount 0 ?net))) = Inr (first_occurrences example_articles)"
    by (simp add: mount_def fetchData_fst fetch_try_def answering_def ok_def example_feed_def
        example_articles_def)
  from load_and_dedup_idempotent[where network = ?net and network' = ?net and t = 0 and t' = 1, OF h1 h2]
       h1 h2
  show ?thesis by blast
qed

text \<open>
  Claim C7, as amended. When the load has ended without error and every deduplicated
  article can be shown by React (its id and image address can be made strings, its
  title and text are not objects), the grid holds one card for each deduplicated
  article, in order. The card holds the title; it holds an image block if and only if
  \<open>image_url\<close> is present and truthy (not \<open>null\<close>, \<open>false\<close>, \<open>0\<close> or the empty string),
  and a text block if and only if \<open>text\<close> is present and truthy; the text block holds
  the text unchanged, line breaks included.
\<close>

theorem card_contents:
  assumes "\<not> loading s" and "\<not> truthy (error s)"
    and "uniqueArticles (data s) = Inr arts" and "arts \<noteq> []"
    and "list_all renderable arts"
  shows "\<exists>cs. render s = Inr (Grid heading cs) \<and> length cs = length arts
           \<and> (\<forall>i<length arts.
                 get_prop (arts ! i) P_title = Inr (title (cs ! i))
                 \<and> (is_shown (image_block (cs ! i)) \<longleftrightarrow>
                      has_field (arts ! i) P_image_url \<and> truthy_js (field P_image_url (arts ! i)))
                 \<and> (is_shown (image_block (cs ! i)) \<longrightarrow>
                      image_block (cs ! i)
                        = Shown (Img (field P_image_url (arts ! i)) (field P_title (arts ! i))))
                 \<and> (is_shown (text_block (cs ! i)) \<longleftrightarrow>
                      has_field (arts ! i) P_text \<and> truthy_js (field P_text (arts ! i)))
                 \<and> (is_shown (text_block (cs ! i)) \<longrightarrow>
                      text_block (cs ! i) = Shown (field P_text (arts ! i))))"
proof -
  have nn: "\<forall>a\<in>set arts. a \<noteq> Null \<and> renderable a"
    using assms(3,5) uniqueArticles_members_not_Null by (auto simp: list_all_iff)
  have nd: "no_data (data s) = Inr False"
    using assms(3,4) by (rule uniqueArticles_nonempty)
  have r: "render s = Inr (Grid heading (map article_card arts))"
    using assms(1,2) nd assms(3) nn by (rule render_grid)
  have "get_prop a P_title = Inr (title (article_card a))
        \<and> (is_shown (image_block (article_card a)) \<longleftrightarrow>
             has_field a P_image_url \<and> truthy_js (field P_image_url a))
        \<and> (is_shown (image_block (article_card a)) \<longrightarrow>
             image_block (article_card a) = Shown (Img (field P_image_url a) (field P_title a)))
        \<and> (is_shown (text_block (article_card a)) \<longleftrightarrow>
             has_field a P_text \<and> truthy_js (field P_text a))
        \<and> (is_shown (text_block (article_card a)) \<longrightarrow>
             text_block (article_card a) = Shown (field P_text a))"
    if "a \<noteq> Null" for a
    using that truthy_field_present[of P_image_url a] truthy_field_present[of P_text a]
    by (auto simp: article_card_def get_prop_not_Null)
  then show ?thesis using r nn by simp
qed

theorem card_contents_witness:
  "\<not> loading \<lparr>data = Arr [falsy_article, shown_article], loading = False, error = Null\<rparr>
   \<and> \<not> truthy (error \<lparr>data = Arr [falsy_article, shown_article], loading = False, error = Null\<rparr>)
   \<and> uniqueArticles (data \<lparr>data = Arr [falsy_article, shown_article], loading = False, error = Null\<rparr>)
        = Inr [falsy_article, shown_article]
   \<and> list_all renderable [falsy_article, shown_article]
   \<and> (\<exists>cs. render \<lparr>data = Arr [falsy_article, shown_article], loading = False, error = Null\<rparr>
              = Inr (Grid heading cs)
          \<and> length cs = 2
          \<and> title (cs ! 1) = Defined (Str ''T'')
          \<and> image_block (cs ! 1)
              = Shown (Img (Defined (Str ''http://x/z.png'')) (Defined (Str ''T'')))
          \<and> text_block (cs ! 1) = Shown (Defined (Str (''one'' @ [CHR 0x0A] @ ''two'')))
          \<and> \<not> is_shown (image_block (cs ! 0))
          \<and> \<not> is_shown (text_block (cs ! 0)))"
proof -
  let ?arts = "[falsy_article, shown_article]"
  let ?s = "\<lparr>data = Arr ?arts, loading = False, error = Null\<rparr>"
  have h1: "\<not> loading ?s" by simp
  have h2: "\<not> truthy (error ?s)" by simp
  have h3: "uniqueArticles (data ?s) = Inr ?arts"
    by (simp add: uniqueArticles_def first_with_id_def same_id_def strict_equals_def
        falsy_article_def shown_article_def)
  have h4: "?arts \<noteq> []" by simp
  have h5: "list_all renderable ?arts"
    by (simp add: renderable_def field_def falsy_article_def shown_article_def)
  have f: "has_field shown_article P_image_url" "has_field shown_article P_text"
    "field P_image_url shown_article = Defined (Str ''http://x/z.png'')"
    "field P_text shown_article = Defined (Str (''one'' @ [CHR 0x0A] @ ''two''))"
    "field P_title shown_article = Defined (Str ''T'')"
    "get_prop shown_article P_title = Inr (Defined (Str ''T''))"
    "\<not> truthy_js (field P_image_url falsy_article)"
    "\<not> truthy_js (field P_text falsy_article)"
    by (simp_all add: has_field_def field_def shown_article_def falsy_article_def)
  from card_contents[OF h1 h2 h3 h4 h5] obtain cs where
    r: "render ?s = Inr (Grid heading cs)" and len: "length cs = length ?arts"
    and c: "\<forall>i<length ?arts.
                 get_prop (?arts ! i) P_title = Inr (title (cs ! i))
                 \<and> (is_shown (image_block (cs ! i)) \<longleftrightarrow>
                      has_field (?arts ! i) P_image_url \<and> truthy_js (field P_image_url (?arts ! i)))
                 \<and> (is_shown (image_block (cs ! i)) \<longrightarrow>
                      image_block (cs ! i)
                        = Shown (Img (field P_image_url (?arts ! i)) (field P_title (?arts ! i))))
                 \<and> (is_shown (text_block (cs ! i)) \<longleftrightarrow>
                      has_field (?arts ! i) P_text \<and> truthy_js (field P_text (?arts ! i)))
                 \<and> (is_shown (text_block (cs ! i)) \<longrightarrow>
                      text_block (cs ! i) = Shown (field P_text (?arts ! i)))"
    by blast
  from c[rule_format, of 0] f
  have c0: "\<not> is_shown (image_block (cs ! 0))" "\<not> is_shown (text_block (cs ! 0))"
    by auto
  from c[rule_format, of 1] f
  have c1: "title (cs ! 1) = Defined (Str ''T'')"
    "image_block (cs ! 1) = Shown (Img (Defined (Str ''http://x/z.png'')) (Defined (Str ''T'')))"
    "text_block (cs ! 1) = Shown (Defined (Str (''one'' @ [CHR 0x0A] @ ''two'')))"
    by auto
  from r len c0 c1 h1 h2 h3 h5 show ?thesis by simp
qed

text \<open>
  The claim as stated asks for the blocks whenever the fields are present, and for a
  card for every deduplicated article. An article with \<open>"image_url": null\<close> and
  \<open>"text": ""\<close> has both fields and gets neither block. An article whose id or image
  address is the object \<open>{"toString": 0}\<close>, or whose text is an object, is deduplicated,
  but React cannot show it and nothing is on the screen.
\<close>

theorem present_falsy_fields_counterexample:
  "has_field falsy_article P_image_url
   \<and> has_field falsy_article P_text
   \<and> render \<lparr>data = Arr [falsy_article], loading = False, error = Null\<rparr>
       = Inr (Grid heading
           [Card (Defined (Num (Finite 3))) (Skipped (Defined Null)) (Defined (Str ''T''))
              (Skipped (Defined (Str [])))])
   \<and> uniqueArticles (Arr [unprintable_key_article]) = Inr [unprintable_key_article]
   \<and> render \<lparr>data = Arr [unprintable_key_article], loading = False, error = Null\<rparr>
       = Inl TypeError
   \<and> uniqueArticles (Arr [unprintable_image_article]) = Inr [unprintable_image_article]
   \<and> render \<lparr>data = Arr [unprintable_image_article], loading = False, error = Null\<rparr>
       = Inl TypeError
   \<and> uniqueArticles (Arr [object_text_article]) = Inr [object_text_article]
   \<and> render \<lparr>data = Arr [object_text_article], loading = False, error = Null\<rparr>
       = Inl InvalidChild"
  by (simp add: render_def ISOToolsSectionClient_def react_render_def no_data_def
      uniqueArticles_def first_with_id_def same_id_def strict_equals_def
      render_card_def coerce_key_def card_error_def attributes_error_def child_error_def
      falsy_article_def unprintable_key_article_def unprintable_image_article_def
      object_text_article_def has_field_def)

text \<open>
  Claim C8. The scenario of the description: three articles, the first two with id 1,
  give exactly two cards, titled A and B in that order; the second card has an image
  block and a text block of two lines.
\<close>

theorem scenario_two_cards:
  "render (fst (mount t (answering (Response 200 (Parsed scenario_payload)))))
     = Inr (Grid heading
         [Card (Defined (Num (Finite 1))) (Skipped Undefined) (Defined (Str ''A'')) (Skipped Undefined),
          Card (Defined (Num (Finite 2)))
               (Shown (Img (Defined (Str ''http://x/y.png'')) (Defined (Str ''B''))))
               (Defined (Str ''B''))
               (Shown (Defined (Str (''Body'' @ [CHR 0x0A] @ ''Line2''))))])
   \<and> split_lines (''Body'' @ [CHR 0x0A] @ ''Line2'') = [''Body'', ''Line2'']"
  by (simp add: mount_def fetchData_fst fetch_try_def answering_def ok_def initial_def
      scenario_payload_def render_def ISOToolsSectionClient_def react_render_def no_data_def
      uniqueArticles_def first_with_id_def same_id_def strict_equals_def render_card_def
      coerce_key_def card_error_def attributes_error_def child_error_def)

text \<open>
  Claim C9. For every successful response whose \<open>daily_news\<close> field is present with
  one of the falsy values \<open>null\<close>, \<open>false\<close>, \<open>0\<close> or the empty string, the load
  stores the empty array and the component shows the empty state.
\<close>

theorem falsy_daily_news_empty_state:
  assumes "ok status"
    and "network (Get feed_url t) = Response status (Parsed doc)"
    and "has_field doc P_daily_news"
    and "get_prop doc P_daily_news = Inr (Defined v)"
    and "v \<in> {Null, Bool False, Num (Finite 0), Str []}"
  shows "data (fst (mount t network)) = Arr []
         \<and> render (fst (mount t network)) = Inr (EmptyView ''No hay noticias disponibles.'')"
proof -
  have "\<not> truthy v" using assms(5) by auto
  then have "or_else (Defined v) (Arr []) = Arr []" by simp
  with mount_success[where network = network, OF assms(1,2,4)]
  show ?thesis by (simp add: render_empty)
qed

theorem falsy_daily_news_empty_state_witness:
  "ok 200
   \<and> answering (Response 200 (Parsed (Obj [(''daily_news'', Num (Finite 0))]))) (Get feed_url 0)
       = Response 200 (Parsed (Obj [(''daily_news'', Num (Finite 0))]))
   \<and> has_field (Obj [(''daily_news'', Num (Finite 0))]) P_daily_news
   \<and> get_prop (Obj [(''daily_news'', Num (Finite 0))]) P_daily_news = Inr (Defined (Num (Finite 0)))
   \<and> Num (Finite 0) \<in> {Null, Bool False, Num (Finite 0), Str []}
   \<and> data (fst (mount 0 (answering (Response 200 (Parsed (Obj [(''daily_news'', Num (Finite 0))]))))))
       = Arr []
   \<and> render (fst (mount 0 (answering (Response 200 (Parsed (Obj [(''daily_news'', Num (Finite 0))]))))))
       = Inr (EmptyView ''No hay noticias disponibles.'')"
proof -
  let ?doc = "Obj [(''daily_news'', Num (Finite 0))]"
  have h1: "ok 200" by (simp add: ok_def)
  have h2: "answering (Response 200 (Parsed ?doc)) (Get feed_url 0) = Response 200 (Parsed ?doc)"
    by (simp add: answering_def)
  have h3: "has_field ?doc P_daily_news" by (simp add: has_field_def)
  have h4: "get_prop ?doc P_daily_news = Inr (Defined (Num (Finite 0)))" by simp
  have h5: "Num (Finite 0) \<in> {Null, Bool False, Num (Finite 0), Str []}" by simp
  from falsy_daily_news_empty_state
         [where network = "answering (Response 200 (Parsed ?doc))" and t = 0, OF h1 h2 h3 h4 h5]
       h1 h2 h3 h4 h5
  show ?thesis by blast
qed

text \<open>
  Claim C10. Ids are compared with \<open>===\<close>. The deduplicated list is exactly the list of
  the articles whose id is equal, as a value of its type, to no earlier id that is not
  an array or an object: the number \<open>1\<close> and the string \<open>"1"\<close> are different values, so
  two articles whose ids differ in type are both kept, while a repeated number or
  string is dropped. A missing id reads as \<open>undefined\<close>, which is equal only to
  \<open>undefined\<close>: of the articles without an id exactly the first one is kept.
\<close>

theorem strict_id_comparison:
  assumes "uniqueArticles (Arr xs) = Inr ys"
  shows "ys = map (\<lambda>i. xs ! i)
               (filter (\<lambda>i. \<forall>j<i. is_reference (field P_id (xs ! j))
                                    \<or> field P_id (xs ! j) \<noteq> field P_id (xs ! i))
                  [0..<length xs])
         \<and> (\<forall>j<length xs. \<forall>i<length xs.
               typeof (field P_id (xs ! j)) \<noteq> typeof (field P_id (xs ! i))
                 \<longrightarrow> uniqueArticles (Arr [xs ! j, xs ! i]) = Inr [xs ! j, xs ! i])
         \<and> filter lacks_id ys = take 1 (filter lacks_id xs)"
proof -
  have nn: "Null \<notin> set xs" using assms by (rule uniqueArticles_Inr_no_Null)
  then have ys: "ys = first_occurrences xs"
    using assms by (simp add: uniqueArticles_first_occurrences)
  have "first_occurrence xs =
          (\<lambda>i. \<forall>j<i. is_reference (field P_id (xs ! j))
                        \<or> field P_id (xs ! j) \<noteq> field P_id (xs ! i))"
    unfolding first_occurrence_def shares_id_def
    by (rule ext) (auto simp: strict_equals_apart)
  then have kept: "ys = map (\<lambda>i. xs ! i)
               (filter (\<lambda>i. \<forall>j<i. is_reference (field P_id (xs ! j))
                                    \<or> field P_id (xs ! j) \<noteq> field P_id (xs ! i))
                  [0..<length xs])"
    using ys by (simp add: first_occurrences_def)
  have pair: "uniqueArticles (Arr [a, b]) = Inr [a, b]"
    if "a \<noteq> Null" "b \<noteq> Null" "typeof (field P_id a) \<noteq> typeof (field P_id b)" for a b
  proof -
    have "Null \<notin> set [a, b]" using that by auto
    then have "uniqueArticles (Arr [a, b]) = Inr (first_occurrences [a, b])"
      by (rule uniqueArticles_first_occurrences)
    moreover have "\<not> shares_id [a, b] 0 1"
      using that(3) strict_equals_typeof by (auto simp: shares_id_def)
    then have "first_occurrences [a, b] = [a, b]"
      by (simp add: first_occurrences_def first_occurrence_def upt_conv_Cons)
    ultimately show ?thesis by simp
  qed
  have lacks: "filter lacks_id ys = take 1 (filter lacks_id xs)"
    unfolding ys by (rule lacks_id_first_occurrences)
  have "uniqueArticles (Arr [xs ! j, xs ! i]) = Inr [xs ! j, xs ! i]"
    if "j < length xs" "i < length xs"
      "typeof (field P_id (xs ! j)) \<noteq> typeof (field P_id (xs ! i))" for i j
  proof -
    have "xs ! j \<noteq> Null" "xs ! i \<noteq> Null" using nn that(1,2) by (metis nth_mem)+
    then show ?thesis using that(3) by (rule pair)
  qed
  with kept lacks show ?thesis by blast
qed

theorem strict_id_comparison_witness:
  "uniqueArticles (Arr typed_ids)
     = Inr [typed_ids ! 0, typed_ids ! 1, typed_ids ! 2, typed_ids ! 3, typed_ids ! 5]
   \<and> [typed_ids ! 0, typed_ids ! 1, typed_ids ! 2, typed_ids ! 3, typed_ids ! 5]
       = map (\<lambda>i. typed_ids ! i)
           (filter (\<lambda>i. \<forall>j<i. is_reference (field P_id (typed_ids ! j))
                                \<or> field P_id (typed_ids ! j) \<noteq> field P_id (typed_ids ! i))
              [0..<length typed_ids])
   \<and> typeof (field P_id (typed_ids ! 0)) \<noteq> typeof (field P_id (typed_ids ! 3))
   \<and> uniqueArticles (Arr [typed_ids ! 0, typed_ids ! 3]) = Inr [typed_ids ! 0, typed_ids ! 3]
   \<and> filter lacks_id [typed_ids ! 0, typed_ids ! 1, typed_ids ! 2, typed_ids ! 3, typed_ids ! 5]
       = [typed_ids ! 5]
   \<and> filter lacks_id typed_ids = [typed_ids ! 5, typed_ids ! 6]"
proof -
  let ?ys = "[typed_ids ! 0, typed_ids ! 1, typed_ids ! 2, typed_ids ! 3, typed_ids ! 5]"
  have h: "uniqueArticles (Arr typed_ids) = Inr ?ys"
    by (simp add: uniqueArticles_def first_with_id_def same_id_def strict_equals_def typed_ids_def)
  have ty: "typeof (field P_id (typed_ids ! 0)) \<noteq> typeof (field P_id (typed_ids ! 3))"
    by (simp add: typed_ids_def field_def)
  have l: "filter lacks_id typed_ids = [typed_ids ! 5, typed_ids ! 6]"
    by (simp add: typed_ids_def lacks_id_def field_def)
  have len: "(0::nat) < length typed_ids" "(3::nat) < length typed_ids"
    by (simp_all add: typed_ids_def)
  from strict_id_comparison[OF h] have
    a: "?ys = map (\<lambda>i. typed_ids ! i)
           (filter (\<lambda>i. \<forall>j<i. is_reference (field P_id (typed_ids ! j))
                                \<or> field P_id (typed_ids ! j) \<noteq> field P_id (typed_ids ! i))
              [0..<length typed_ids])"
    and b: "\<forall>j<length typed_ids. \<forall>i<length typed_ids.
               typeof (field P_id (typed_ids ! j)) \<noteq> typeof (field P_id (typed_ids ! i))
                 \<longrightarrow> uniqueArticles (Arr [typed_ids ! j, typed_ids ! i])
                       = Inr [typed_ids ! j, typed_ids ! i]"
    and c: "filter lacks_id ?ys = take 1 (filter lacks_id typed_ids)"
    by blast+
  from b len ty have p: "uniqueArticles (Arr [typed_ids ! 0, typed_ids ! 3])
                          = Inr [typed_ids ! 0, typed_ids ! 3]"
    by blast
  from c l have "filter lacks_id ?ys = [typed_ids ! 5]" by simp
  with h a ty p l show ?thesis by blast
qed

end
